theory Spec2Isabelle
  imports Complex_Main "HOL-Library.Log_Nat"
begin

section \<open>Coordinate values\<close>

text \<open>
  The keypoint operations of \<^verbatim>\<open>object_detection/core/keypoint_ops.py\<close> work on
  tensors of \<^verbatim>\<open>float32\<close> numbers. A coordinate is a real number, one of the two
  infinities, or the not-a-number value that the module uses as the mark of a pruned
  keypoint. Every arithmetic operation rounds its exact result to the nearest
  \<^verbatim>\<open>float32\<close> number, ties to the even significand, and overflows to an infinity; the
  arithmetic on the special values follows IEEE 754. The two zeros are not told apart.
\<close>

datatype fval = NaN | NInf | Fin real | PInf

fun is_nan :: "fval \<Rightarrow> bool" where
  "is_nan NaN = True"
| "is_nan _ = False"

text \<open>The sign of a value that is not NaN, as \<open>-1\<close>, \<open>0\<close> or \<open>1\<close>.\<close>

fun fsgn :: "fval \<Rightarrow> int" where
  "fsgn NaN = 0"
| "fsgn NInf = - 1"
| "fsgn PInf = 1"
| "fsgn (Fin a) = (if a < 0 then - 1 else if a = 0 then 0 else 1)"

subsection \<open>Rounding to \<^verbatim>\<open>float32\<close>\<close>

text \<open>The nearest integer, the even one of two that are equally near.\<close>

definition round_even :: "real \<Rightarrow> int" where
  "round_even x =
     (let n = \<lfloor>x\<rfloor>; d = x - of_int n
      in if d < 1 / 2 then n else if 1 / 2 < d then n + 1
         else if even n then n else n + 1)"

text \<open>
  The binary exponent of a number, kept between \<open>-126\<close> (where the subnormal numbers
  lie) and \<open>127\<close>: for \<open>2\<^sup>-\<^sup>1\<^sup>2\<^sup>6 \<le> \<bar>x\<bar> < 2\<^sup>1\<^sup>2\<^sup>8\<close> it is the \<open>e\<close> with
  \<open>2\<^sup>e \<le> \<bar>x\<bar> < 2\<^sup>e\<^sup>+\<^sup>1\<close>. The unit in the last place of a significand of 24 bits
  is 23 binary places below it.
\<close>

definition expo :: "real \<Rightarrow> int" where
  "expo x = min 127 (max (- 126) (bitlen \<lfloor>\<bar>x\<bar> * 2 ^ 149\<rfloor> - 150))"

definition ulp :: "real \<Rightarrow> real" where
  "ulp x = 2 powi (expo x - 23)"

definition rnd :: "real \<Rightarrow> fval" where
  "rnd x =
     (let r = of_int (round_even (x / ulp x)) * ulp x
      in if 2 powi 128 \<le> \<bar>r\<bar> then (if 0 < x then PInf else NInf) else Fin r)"

text \<open>\<^verbatim>\<open>tf.cast(v, tf.float32)\<close>, and the values it leaves as they are.\<close>

fun cast_float32 :: "fval \<Rightarrow> fval" where
  "cast_float32 (Fin r) = rnd r"
| "cast_float32 v = v"

definition is_float32 :: "fval \<Rightarrow> bool" where
  "is_float32 v \<longleftrightarrow> cast_float32 v = v"

subsection \<open>Arithmetic and comparisons\<close>

fun fsub :: "fval \<Rightarrow> fval \<Rightarrow> fval" where
  "fsub NaN _ = NaN"
| "fsub _ NaN = NaN"
| "fsub (Fin a) (Fin b) = rnd (a - b)"
| "fsub PInf PInf = NaN"
| "fsub NInf NInf = NaN"
| "fsub PInf _ = PInf"
| "fsub NInf _ = NInf"
| "fsub _ PInf = NInf"
| "fsub _ NInf = PInf"

fun fmul :: "fval \<Rightarrow> fval \<Rightarrow> fval" where
  "fmul NaN _ = NaN"
| "fmul _ NaN = NaN"
| "fmul (Fin a) (Fin b) = rnd (a * b)"
| "fmul a b =
     (if fsgn a = 0 \<or> fsgn b = 0 then NaN
      else if fsgn a = fsgn b then PInf else NInf)"

text \<open>
  Division. A finite non-zero number divided by zero is an infinity with the sign of the
  dividend (the zero is taken as positive), and zero by zero is NaN.
\<close>

fun fdiv :: "fval \<Rightarrow> fval \<Rightarrow> fval" where
  "fdiv NaN _ = NaN"
| "fdiv _ NaN = NaN"
| "fdiv (Fin a) (Fin b) =
     (if b = 0 then (if a = 0 then NaN else if 0 < a then PInf else NInf)
      else rnd (a / b))"
| "fdiv (Fin a) _ = Fin 0"
| "fdiv a (Fin b) = (if (0 < fsgn a) = (0 \<le> b) then PInf else NInf)"
| "fdiv _ _ = NaN"

text \<open>Comparisons: every comparison with NaN is false.\<close>

fun fle :: "fval \<Rightarrow> fval \<Rightarrow> bool" where
  "fle NaN _ = False"
| "fle _ NaN = False"
| "fle NInf _ = True"
| "fle _ PInf = True"
| "fle (Fin a) (Fin b) = (a \<le> b)"
| "fle _ _ = False"

definition fge :: "fval \<Rightarrow> fval \<Rightarrow> bool" where
  "fge a b = fle b a"

fun fgt :: "fval \<Rightarrow> fval \<Rightarrow> bool" where
  "fgt NaN _ = False"
| "fgt _ NaN = False"
| "fgt a b = (\<not> fle a b)"

text \<open>
  \<^verbatim>\<open>tf.minimum\<close> and \<^verbatim>\<open>tf.maximum\<close> return NaN as soon as one argument
  is NaN.
\<close>

definition fmin :: "fval \<Rightarrow> fval \<Rightarrow> fval" where
  "fmin a b = (if is_nan a \<or> is_nan b then NaN else if fle a b then a else b)"

definition fmax :: "fval \<Rightarrow> fval \<Rightarrow> fval" where
  "fmax a b = (if is_nan a \<or> is_nan b then NaN else if fle a b then b else a)"

section \<open>Tensors\<close>

text \<open>
  A tensor with two leading axes of sizes \<open>dim0\<close> and \<open>dim1\<close>; a cell holds what
  lies along the trailing axis. A keypoint tensor of shape
  \<^verbatim>\<open>[num_instances, num_keypoints, 2]\<close> has the pair \<open>(y, x)\<close> in each cell, the two
  halves that \<^verbatim>\<open>tf.split\<close> makes of it have one number in each cell, and a
  visibility mask of shape \<^verbatim>\<open>[num_instances, num_keypoints]\<close> has one boolean.
\<close>

datatype 'a tensor = Tensor (dim0: nat) (dim1: nat) (cells: "'a list list")

type_synonym keypoints = "(fval \<times> fval) tensor"

text \<open>The rows agree with the declared shape.\<close>

definition well_shaped :: "'a tensor \<Rightarrow> bool" where
  "well_shaped t \<longleftrightarrow>
     length (cells t) = dim0 t \<and> list_all (\<lambda>r. length r = dim1 t) (cells t)"

text \<open>The cell at instance \<open>i\<close> and keypoint \<open>k\<close>.\<close>

definition cell :: "'a tensor \<Rightarrow> nat \<Rightarrow> nat \<Rightarrow> 'a" where
  "cell t i k = cells t ! i ! k"

text \<open>An element-wise operation, also one that broadcasts a scalar over the tensor.\<close>

definition tmap :: "('a \<Rightarrow> 'b) \<Rightarrow> 'a tensor \<Rightarrow> 'b tensor" where
  "tmap f t = Tensor (dim0 t) (dim1 t) (map (map f) (cells t))"

text \<open>An element-wise operation on two tensors of the same shape.\<close>

definition tmap2 :: "('a \<Rightarrow> 'b \<Rightarrow> 'c) \<Rightarrow> 'a tensor \<Rightarrow> 'b tensor \<Rightarrow> 'c tensor" where
  "tmap2 f a b = Tensor (dim0 a) (dim1 a) (map2 (map2 f) (cells a) (cells b))"

text \<open>\<^verbatim>\<open>tf.where(condition, a, b)\<close> on three tensors of the same shape.\<close>

definition twhere :: "bool tensor \<Rightarrow> 'a tensor \<Rightarrow> 'a tensor \<Rightarrow> 'a tensor" where
  "twhere condition a b =
     tmap2 (\<lambda>c (p, q). if c then p else q) condition (tmap2 Pair a b)"

definition ones_like :: "fval tensor \<Rightarrow> fval tensor" where
  "ones_like t = tmap (\<lambda>_. Fin 1) t"

text \<open>\<^verbatim>\<open>tf.split(value=t, num_or_size_splits=2, axis=2)\<close> on a trailing axis of size 2.\<close>

definition split_axis2 :: "('a \<times> 'a) tensor \<Rightarrow> 'a tensor \<times> 'a tensor" where
  "split_axis2 t = (tmap fst t, tmap snd t)"

text \<open>\<^verbatim>\<open>tf.concat([v, u], 2)\<close> of two tensors of the same shape.\<close>

definition concat_axis2 :: "'a tensor \<Rightarrow> 'a tensor \<Rightarrow> ('a \<times> 'a) tensor" where
  "concat_axis2 v u = Tensor (dim0 v) (dim1 v) (map2 zip (cells v) (cells u))"

text \<open>\<^verbatim>\<open>tf.transpose(t, [1, 0, 2])\<close>: the two leading axes change places.\<close>

definition transpose_102 :: "'a tensor \<Rightarrow> 'a tensor" where
  "transpose_102 t =
     Tensor (dim1 t) (dim0 t)
       (map (\<lambda>k. map (\<lambda>i. cells t ! i ! k) [0..<dim0 t]) [0..<dim1 t])"

text \<open>A window \<^verbatim>\<open>[y_min, x_min, y_max, x_max]\<close>, as \<^verbatim>\<open>tf.unstack\<close> reads it.\<close>

record window =
  win_y_min :: fval
  win_x_min :: fval
  win_y_max :: fval
  win_x_max :: fval

section \<open>Keypoint operations\<close>

definition scale :: "keypoints \<Rightarrow> fval \<Rightarrow> fval \<Rightarrow> keypoints" where
  "scale keypoints y_scale x_scale =
     (let y_scale = cast_float32 y_scale;
          x_scale = cast_float32 x_scale
      in tmap (\<lambda>(y, x). (fmul y y_scale, fmul x x_scale)) keypoints)"

definition clip_to_window :: "keypoints \<Rightarrow> window \<Rightarrow> keypoints" where
  "clip_to_window keypoints window =
     (let (y, x) = split_axis2 keypoints;
          y = tmap (\<lambda>v. fmax (fmin v (win_y_max window)) (win_y_min window)) y;
          x = tmap (\<lambda>v. fmax (fmin v (win_x_max window)) (win_x_min window)) x
      in concat_axis2 y x)"

definition prune_outside_window :: "keypoints \<Rightarrow> window \<Rightarrow> keypoints" where
  "prune_outside_window keypoints window =
     (let (y, x) = split_axis2 keypoints;
          valid_indices =
            tmap2 (\<and>)
              (tmap2 (\<and>) (tmap (\<lambda>v. fge v (win_y_min window)) y)
                           (tmap (\<lambda>v. fle v (win_y_max window)) y))
              (tmap2 (\<and>) (tmap (\<lambda>v. fge v (win_x_min window)) x)
                           (tmap (\<lambda>v. fle v (win_x_max window)) x));
          new_y = twhere valid_indices y (tmap (fmul NaN) (ones_like y));
          new_x = twhere valid_indices x (tmap (fmul NaN) (ones_like x))
      in concat_axis2 new_y new_x)"


subsection \<open>Range assertions\<close>

datatype error = InvalidArgument string fval | IndexOutOfRange | ShapeMismatch

text \<open>Running a second operation on the result of a first one that did not fail.\<close>

definition and_then :: "error + 'a \<Rightarrow> ('a \<Rightarrow> error + 'b) \<Rightarrow> error + 'b" where
  "and_then r f = (case r of Inl e \<Rightarrow> Inl e | Inr v \<Rightarrow> f v)"

text \<open>
  The module is written against \<^verbatim>\<open>tensorflow.compat.v1\<close> and is run in one of three
  ways: eagerly, traced inside a \<^verbatim>\<open>tf.function\<close>, or as a v1 graph that a session
  runs.
\<close>

datatype execution = Eager | Function | Session

text \<open>
  \<^verbatim>\<open>tf.Assert(condition, data)\<close>; the data are a message and the value it is about.
  Called eagerly it raises at once when the condition is false. Inside a
  \<^verbatim>\<open>tf.function\<close> the operation it builds runs with the function, whether anything
  depends on it or not. In a v1 graph the operation is only built: it runs when what the
  session fetches depends on it.
\<close>

datatype assert_op = Assert (condition: bool) (message: string) (data: fval)

definition tf_Assert :: "execution \<Rightarrow> bool \<Rightarrow> string \<Rightarrow> fval \<Rightarrow> error + assert_op" where
  "tf_Assert ex c msg d =
     (if ex \<noteq> Session \<and> \<not> c then Inl (InvalidArgument msg d) else Inr (Assert c msg d))"

text \<open>
  \<^verbatim>\<open>assert_control_dependencies\<close> of \<^verbatim>\<open>utils/control_dependencies.py\<close> makes the
  operations built in its block depend on the assertions when the module constant
  \<^verbatim>\<open>ASSERT_ACTIVE\<close> is set (the environment variable of that name is \<^verbatim>\<open>'1'\<close>), and on
  nothing otherwise.
\<close>

definition assert_control_dependencies :: "bool \<Rightarrow> assert_op list \<Rightarrow> assert_op list" where
  "assert_control_dependencies ASSERT_ACTIVE conditions =
     (if ASSERT_ACTIVE then conditions else [])"

text \<open>The value of an operation that depends on the given assertions.\<close>

fun with_dependencies :: "assert_op list \<Rightarrow> 'a \<Rightarrow> error + 'a" where
  "with_dependencies [] v = Inr v"
| "with_dependencies (a # as) v =
     (if condition a then with_dependencies as v
      else Inl (InvalidArgument (message a) (data a)))"

text \<open>
  \<^verbatim>\<open>tf.reduce_max\<close> over all coordinates: the lowest value on an empty tensor, NaN
  when a coordinate is NaN.
\<close>

definition reduce_max :: "keypoints \<Rightarrow> fval" where
  "reduce_max t = foldl fmax NInf (concat (map (\<lambda>(y, x). [y, x]) (concat (cells t))))"

text \<open>
  The Python constant \<^verbatim>\<open>1.01\<close> becomes a \<^verbatim>\<open>float32\<close> constant when it is compared
  with \<^verbatim>\<open>max_val\<close>.
\<close>

definition to_normalized_coordinates ::
  "execution \<Rightarrow> bool \<Rightarrow> keypoints \<Rightarrow> fval \<Rightarrow> fval \<Rightarrow> bool \<Rightarrow> error + keypoints" where
  "to_normalized_coordinates ex ASSERT_ACTIVE keypoints height width check_range =
     (let height = cast_float32 height;
          width = cast_float32 width;
          width =
            (if check_range then
               (let max_val = reduce_max keypoints
                in case tf_Assert ex (fgt max_val (rnd (101 / 100)))
                          ''max value is lower than 1.01: '' max_val of
                     Inl e \<Rightarrow> Inl e
                   | Inr max_assert \<Rightarrow>
                       with_dependencies
                         (assert_control_dependencies ASSERT_ACTIVE [max_assert]) width)
             else Inr width)
      in case width of
           Inl e \<Rightarrow> Inl e
         | Inr width \<Rightarrow> Inr (scale keypoints (fdiv (Fin 1) height) (fdiv (Fin 1) width)))"

definition to_absolute_coordinates ::
  "execution \<Rightarrow> bool \<Rightarrow> keypoints \<Rightarrow> fval \<Rightarrow> fval \<Rightarrow> bool \<Rightarrow> error + keypoints" where
  "to_absolute_coordinates ex ASSERT_ACTIVE keypoints height width check_range =
     (let height = cast_float32 height;
          width = cast_float32 width;
          width =
            (if check_range then
               (let max_val = reduce_max keypoints
                in case tf_Assert ex (fge (rnd (101 / 100)) max_val)
                          ''maximum keypoint coordinate value is larger than 1.01: ''
                          max_val of
                     Inl e \<Rightarrow> Inl e
                   | Inr max_assert \<Rightarrow>
                       with_dependencies
                         (assert_control_dependencies ASSERT_ACTIVE [max_assert]) width)
             else Inr width)
      in case width of
           Inl e \<Rightarrow> Inl e
         | Inr width \<Rightarrow> Inr (scale keypoints height width))"

subsection \<open>Flips and rotation\<close>

text \<open>
  \<^verbatim>\<open>tf.gather(t, indices)\<close> along the first axis; an index outside the axis is an
  error.
\<close>

definition gather :: "'a tensor \<Rightarrow> int list \<Rightarrow> error + 'a tensor" where
  "gather t indices =
     (if list_all (\<lambda>i. 0 \<le> i \<and> i < int (dim0 t)) indices
      then Inr (Tensor (length indices) (dim1 t) (map (\<lambda>i. cells t ! nat i) indices))
      else Inl IndexOutOfRange)"

text \<open>A permutation that is absent or empty leaves the order as it is.\<close>

definition permute :: "'a tensor \<Rightarrow> int list option \<Rightarrow> error + 'a tensor" where
  "permute t permutation =
     (case permutation of
        None \<Rightarrow> Inr t
      | Some p \<Rightarrow> if p = [] then Inr t else gather t p)"


text \<open>\<^verbatim>\<open>t[:, :, ::-1]\<close>: the trailing axis in reverse order.\<close>

definition reverse_axis2 :: "('a \<times> 'a) tensor \<Rightarrow> ('a \<times> 'a) tensor" where
  "reverse_axis2 t = tmap (\<lambda>(a, b). (b, a)) t"

definition rot90 :: "keypoints \<Rightarrow> int list option \<Rightarrow> error + keypoints" where
  "rot90 keypoints rotation_permutation =
     (case permute (transpose_102 keypoints) rotation_permutation of
        Inl e \<Rightarrow> Inl e
      | Inr keypoints \<Rightarrow>
          (let (v, u) = split_axis2 (reverse_axis2 keypoints);
               v = tmap (\<lambda>c. fsub (Fin 1) c) v;
               new_keypoints = concat_axis2 v u
           in Inr (transpose_102 new_keypoints)))"

subsection \<open>Visibilities\<close>

text \<open>
  The mask starts from the given one, or from all-true in the shape of
  \<^verbatim>\<open>keypoints[:, :, 0]\<close>; \<^verbatim>\<open>tf.where\<close> wants its three arguments in one shape.
\<close>

definition set_keypoint_visibilities ::
  "keypoints \<Rightarrow> bool tensor option \<Rightarrow> error + bool tensor" where
  "set_keypoint_visibilities keypoints initial_keypoint_visibilities =
     (let keypoint_visibilities =
            (case initial_keypoint_visibilities of
               Some v \<Rightarrow> v
             | None \<Rightarrow> tmap (\<lambda>_. True) keypoints);
          keypoints_with_nan = tmap (\<lambda>(y, x). is_nan y \<or> is_nan x) keypoints
      in if dim0 keypoint_visibilities = dim0 keypoints_with_nan
            \<and> dim1 keypoint_visibilities = dim1 keypoints_with_nan
         then Inr (twhere keypoints_with_nan
                     (tmap (\<lambda>_. False) keypoint_visibilities) keypoint_visibilities)
         else Inl ShapeMismatch)"

subsection \<open>Predicates of the statements\<close>

text \<open>A keypoint tensor that holds \<^verbatim>\<open>float32\<close> values.\<close>

definition float32_tensor :: "keypoints \<Rightarrow> bool" where
  "float32_tensor t \<longleftrightarrow>
     list_all (list_all (\<lambda>(y, x). is_float32 y \<and> is_float32 x)) (cells t)"

text \<open>Two finite values that differ by at most the given tolerance.\<close>

fun within_tolerance :: "real \<Rightarrow> fval \<Rightarrow> fval \<Rightarrow> bool" where
  "within_tolerance eps (Fin a) (Fin b) = (\<bar>a - b\<bar> \<le> eps)"
| "within_tolerance eps _ _ = False"

section \<open>Facts about the tensor operations\<close>

lemma map2_maps: "map2 h (map f xs) (map g xs) = map (\<lambda>x. h (f x) (g x)) xs"
  by (induction xs) simp_all

lemma zip_maps: "zip (map f xs) (map g xs) = map (\<lambda>x. (f x, g x)) xs"
  by (induction xs) simp_all

lemma tmap_tmap: "tmap f (tmap g t) = tmap (\<lambda>c. f (g c)) t"
  by (simp add: tmap_def comp_def)

lemma tmap_ident: "tmap (\<lambda>c. c) t = t"
  by (cases t) (simp add: tmap_def)

lemma tmap2_tmap: "tmap2 h (tmap f t) (tmap g t) = tmap (\<lambda>c. h (f c) (g c)) t"
  by (simp add: tmap2_def tmap_def map2_maps)

lemma concat_axis2_tmap: "concat_axis2 (tmap f t) (tmap g t) = tmap (\<lambda>c. (f c, g c)) t"
  by (simp add: concat_axis2_def tmap_def map2_maps zip_maps)

lemma twhere_tmap:
  "twhere (tmap c t) (tmap f t) (tmap g t) = tmap (\<lambda>a. if c a then f a else g a) t"
  by (simp add: twhere_def tmap2_tmap)

lemma dims_tmap: "dim0 (tmap f t) = dim0 t" "dim1 (tmap f t) = dim1 t"
  by (simp_all add: tmap_def)

lemma dims_tmap2: "dim0 (tmap2 f a b) = dim0 a" "dim1 (tmap2 f a b) = dim1 a"
  by (simp_all add: tmap2_def)

lemma dims_twhere: "dim0 (twhere c a b) = dim0 c" "dim1 (twhere c a b) = dim1 c"
  by (simp_all add: twhere_def dims_tmap2)

lemma well_shaped_tmap: "well_shaped (tmap f t) = well_shaped t"
  by (simp add: well_shaped_def tmap_def list_all_iff)

lemma well_shaped_tmap2:
  "well_shaped a \<Longrightarrow> well_shaped b \<Longrightarrow> dim0 b = dim0 a \<Longrightarrow> dim1 b = dim1 a \<Longrightarrow>
   well_shaped (tmap2 f a b)"
  by (auto simp add: tmap2_def well_shaped_def list_all_length)

lemma well_shaped_twhere:
  assumes "well_shaped c" and "well_shaped a" and "well_shaped b"
    and "dim0 a = dim0 c" and "dim1 a = dim1 c" and "dim0 b = dim0 c" and "dim1 b = dim1 c"
  shows "well_shaped (twhere c a b)"
  using assms by (simp add: twhere_def well_shaped_tmap2 dims_tmap2)

lemma well_shaped_transpose_102: "well_shaped (transpose_102 t)"
  by (simp add: well_shaped_def transpose_102_def list_all_iff)

lemma cell_in_range:
  "well_shaped t \<Longrightarrow> i < dim0 t \<Longrightarrow> k < dim1 t \<Longrightarrow>
   i < length (cells t) \<and> k < length (cells t ! i)"
  by (simp add: well_shaped_def list_all_length)

lemma cell_tmap:
  "well_shaped t \<Longrightarrow> i < dim0 t \<Longrightarrow> k < dim1 t \<Longrightarrow> cell (tmap f t) i k = f (cell t i k)"
  using cell_in_range [of t i k] by (simp add: cell_def tmap_def)

lemma cell_tmap2:
  "well_shaped a \<Longrightarrow> well_shaped b \<Longrightarrow> dim0 b = dim0 a \<Longrightarrow> dim1 b = dim1 a \<Longrightarrow>
   i < dim0 a \<Longrightarrow> k < dim1 a \<Longrightarrow> cell (tmap2 f a b) i k = f (cell a i k) (cell b i k)"
  by (simp add: cell_def tmap2_def well_shaped_def list_all_length)

lemma cell_twhere:
  assumes "well_shaped c" and "well_shaped a" and "well_shaped b"
    and "dim0 a = dim0 c" and "dim1 a = dim1 c" and "dim0 b = dim0 c" and "dim1 b = dim1 c"
    and "i < dim0 c" and "k < dim1 c"
  shows "cell (twhere c a b) i k = (if cell c i k then cell a i k else cell b i k)"
  using assms by (simp add: twhere_def cell_tmap2 well_shaped_tmap2 dims_tmap2)

text \<open>Transposition commutes with element-wise operations and undoes itself.\<close>

lemma transpose_102_tmap:
  "well_shaped t \<Longrightarrow> transpose_102 (tmap f t) = tmap f (transpose_102 t)"
  by (auto simp add: transpose_102_def tmap_def well_shaped_def list_all_iff)

lemma transpose_102_twice: "well_shaped t \<Longrightarrow> transpose_102 (transpose_102 t) = t"
  by (cases t)
    (auto simp add: transpose_102_def well_shaped_def list_all_iff intro!: nth_equalityI)

section \<open>What each operation does to a keypoint\<close>

lemma clip_to_window_cells:
  "clip_to_window K W =
     tmap (\<lambda>(y, x). (fmax (fmin y (win_y_max W)) (win_y_min W),
                      fmax (fmin x (win_x_max W)) (win_x_min W))) K"
  by (simp add: clip_to_window_def split_axis2_def tmap_tmap concat_axis2_tmap
      case_prod_unfold)

lemma prune_outside_window_cells:
  "prune_outside_window K W =
     tmap (\<lambda>(y, x).
        if (fge y (win_y_min W) \<and> fle y (win_y_max W)) \<and>
           (fge x (win_x_min W) \<and> fle x (win_x_max W))
        then (y, x) else (NaN, NaN)) K"
  by (simp add: prune_outside_window_def split_axis2_def ones_like_def tmap_tmap tmap2_tmap
      twhere_tmap concat_axis2_tmap case_prod_unfold if_distrib cong: if_cong)


lemma rot90_cells:
  assumes "well_shaped K"
  shows "rot90 K None = Inr (tmap (\<lambda>(y, x). (fsub (Fin 1) x, y)) K)"
  using assms
  by (simp add: rot90_def permute_def split_axis2_def reverse_axis2_def tmap_tmap
      concat_axis2_tmap transpose_102_tmap well_shaped_transpose_102 transpose_102_twice
      case_prod_unfold)

section \<open>Facts about the arithmetic\<close>

lemma clamp_nan: "is_nan v \<Longrightarrow> is_nan (fmax (fmin v hi) lo)"
  by (simp add: fmin_def fmax_def)

lemma clamp_within:
  "fle lo hi \<Longrightarrow> \<not> is_nan v \<Longrightarrow>
     fle lo (fmax (fmin v hi) lo) \<and> fle (fmax (fmin v hi) lo) hi"
  by (cases lo; cases hi; cases v) (auto simp add: fmin_def fmax_def)

lemma fle_not_fgt: "fle a b \<Longrightarrow> \<not> fgt a b"
  by (cases a; cases b) simp_all

text \<open>
  On a tensor without NaN, \<open>reduce_max\<close> is an upper bound of every coordinate.
\<close>

lemma fle_refl: "\<not> is_nan a \<Longrightarrow> fle a a"
  by (cases a) simp_all

lemma fle_trans: "fle a b \<Longrightarrow> fle b c \<Longrightarrow> fle a c"
  by (cases a; cases b; cases c) simp_all

lemma fle_total: "\<not> is_nan a \<Longrightarrow> \<not> is_nan b \<Longrightarrow> fle a b \<or> fle b a"
  by (cases a; cases b) auto

lemma fmax_upper:
  "\<not> is_nan a \<Longrightarrow> \<not> is_nan b \<Longrightarrow>
   fle a (fmax a b) \<and> fle b (fmax a b) \<and> \<not> is_nan (fmax a b)"
  using fle_total [of a b] by (auto simp add: fmax_def fle_refl)

lemma foldl_fmax_upper:
  "\<not> is_nan a \<Longrightarrow> list_all (\<lambda>v. \<not> is_nan v) vs \<Longrightarrow>
   fle a (foldl fmax a vs) \<and> list_all (\<lambda>v. fle v (foldl fmax a vs)) vs"
proof (induction vs arbitrary: a)
  case Nil
  then show ?case by (simp add: fle_refl)
next
  case (Cons v vs)
  then have step: "fle a (fmax a v)" "fle v (fmax a v)" "\<not> is_nan (fmax a v)"
    using fmax_upper [of a v] by simp_all
  from Cons have rest: "list_all (\<lambda>v. \<not> is_nan v) vs" by simp
  from Cons.IH [OF step(3) rest]
  have ih: "fle (fmax a v) (foldl fmax (fmax a v) vs)"
    "list_all (\<lambda>u. fle u (foldl fmax (fmax a v) vs)) vs" by simp_all
  show ?case
    using step ih by (auto intro: fle_trans)
qed

lemma reduce_max_upper:
  assumes "well_shaped K" and "i < dim0 K" and "k < dim1 K"
    and "list_all (list_all (\<lambda>(y, x). \<not> is_nan y \<and> \<not> is_nan x)) (cells K)"
  shows "fle (fst (cell K i k)) (reduce_max K) \<and> fle (snd (cell K i k)) (reduce_max K)"
proof -
  let ?vs = "concat (map (\<lambda>c. [fst c, snd c]) (concat (cells K)))"
  have red: "reduce_max K = foldl fmax NInf ?vs"
    by (simp add: reduce_max_def case_prod_unfold)
  have "list_all (\<lambda>v. \<not> is_nan v) ?vs"
    using assms(4) by (fastforce simp add: list_all_iff)
  then have all: "\<forall>v\<in>set ?vs. fle v (reduce_max K)"
    using foldl_fmax_upper [of NInf ?vs] by (simp add: red list_all_iff)
  have "cells K ! i \<in> set (cells K)" "cell K i k \<in> set (cells K ! i)"
    using cell_in_range [OF assms(1-3)] by (simp_all add: cell_def)
  then have "cell K i k \<in> set (concat (cells K))"
    by auto
  then have "fst (cell K i k) \<in> set ?vs" "snd (cell K i k) \<in> set ?vs"
    by auto
  with all show ?thesis
    by blast
qed

section \<open>Facts about rounding\<close>

lemma round_even_error: "\<bar>of_int (round_even z) - z\<bar> \<le> 1 / 2"
  unfolding round_even_def Let_def by (auto; linarith)

lemma round_even_of_int [simp]: "round_even (of_int n) = n"
  by (simp add: round_even_def)

lemma expo_range: "- 126 \<le> expo x" "expo x \<le> 127"
  by (simp_all add: expo_def)

lemma floor_scaled_less:
  fixes x :: real
  assumes "- 149 \<le> e" and "\<bar>x\<bar> < 2 powi e"
  shows "\<lfloor>\<bar>x\<bar> * 2 ^ 149\<rfloor> < 2 ^ nat (e + 149)"
proof -
  have "\<bar>x\<bar> * 2 ^ 149 < 2 powi e * 2 powi 149"
    using assms(2) by simp
  also have "\<dots> = 2 powi (e + 149)"
    by (simp add: power_int_add)
  also have "\<dots> = 2 ^ nat (e + 149)"
    using assms(1) by (simp add: power_int_def)
  finally have "\<bar>x\<bar> * 2 ^ 149 < of_int (2 ^ nat (e + 149))"
    by simp
  then show ?thesis
    by (simp add: floor_less_iff)
qed

lemma floor_scaled_ge:
  fixes x :: real
  assumes "- 149 \<le> e" and "2 powi e \<le> \<bar>x\<bar>"
  shows "2 ^ nat (e + 149) \<le> \<lfloor>\<bar>x\<bar> * 2 ^ 149\<rfloor>"
proof -
  have "2 powi (e + 149) = 2 powi e * (2::real) powi 149"
    by (simp add: power_int_add)
  also have "\<dots> \<le> \<bar>x\<bar> * 2 ^ 149"
    using assms(2) by simp
  finally have "of_int (2 ^ nat (e + 149)) \<le> \<bar>x\<bar> * 2 ^ 149"
    using assms(1) by (simp add: power_int_def)
  then show ?thesis
    by (simp add: le_floor_iff)
qed

lemma expo_le:
  assumes "- 126 \<le> e" and "\<bar>x\<bar> < 2 powi (e + 1)"
  shows "expo x \<le> e"
proof -
  have "\<lfloor>\<bar>x\<bar> * 2 ^ 149\<rfloor> < 2 ^ nat (e + 150)"
    using floor_scaled_less [of "e + 1" x] assms by (simp add: add.commute)
  then have "bitlen \<lfloor>\<bar>x\<bar> * 2 ^ 149\<rfloor> \<le> e + 150"
    using assms(1) by (simp add: bitlen_le_iff_power)
  then show ?thesis
    using assms(1) by (simp add: expo_def)
qed

lemma expo_ge:
  assumes "e \<le> 127" and "2 powi e \<le> \<bar>x\<bar>"
  shows "e \<le> expo x"
proof (cases "- 126 \<le> e")
  case False
  then show ?thesis using expo_range(1) [of x] by linarith
next
  case True
  let ?N = "\<lfloor>\<bar>x\<bar> * 2 ^ 149\<rfloor>"
  have low: "2 ^ nat (e + 149) \<le> ?N"
    using floor_scaled_ge [of e x] True assms(2) by simp
  have "\<not> bitlen ?N \<le> e + 149"
    using low True by (simp add: bitlen_le_iff_power)
  then have "e + 150 \<le> bitlen ?N" by simp
  then show ?thesis
    using assms(1) True by (simp add: expo_def)
qed

lemma expo_eq:
  assumes "- 126 \<le> e" and "e \<le> 127" and "2 powi e \<le> \<bar>x\<bar>" and "\<bar>x\<bar> < 2 powi (e + 1)"
  shows "expo x = e"
  using expo_le [OF assms(1,4)] expo_ge [OF assms(2,3)] by simp


lemma expo_lower:
  assumes "2 powi (- 126) \<le> \<bar>x\<bar>"
  shows "2 powi (expo x) \<le> \<bar>x\<bar>"
proof (rule ccontr)
  assume "\<not> 2 powi (expo x) \<le> \<bar>x\<bar>"
  then have less: "\<bar>x\<bar> < 2 powi (expo x)" by simp
  show False
  proof (cases "expo x = - 126")
    case True
    with less assms show False by simp
  next
    case False
    then have "- 126 \<le> expo x - 1"
      using expo_range(1) [of x] by simp
    moreover have "\<bar>x\<bar> < 2 powi (expo x - 1 + 1)"
      using less by simp
    ultimately have "expo x \<le> expo x - 1"
      by (rule expo_le)
    then show False by simp
  qed
qed

lemma expo_upper:
  assumes "\<bar>x\<bar> < 2 powi 128"
  shows "\<bar>x\<bar> < 2 powi (expo x + 1)"
proof (rule ccontr)
  assume "\<not> \<bar>x\<bar> < 2 powi (expo x + 1)"
  then have ge: "2 powi (expo x + 1) \<le> \<bar>x\<bar>" by simp
  show False
  proof (cases "expo x = 127")
    case True
    with ge assms show False by simp
  next
    case False
    then have "expo x + 1 \<le> 127"
      using expo_range(2) [of x] by simp
    then have "expo x + 1 \<le> expo x"
      using ge by (rule expo_ge)
    then show False by simp
  qed
qed

lemma ulp_pos: "0 < ulp x"
  by (simp add: ulp_def)

lemma rnd_error:
  assumes "- 126 \<le> e" and "e \<le> 126" and "\<bar>x\<bar> < 2 powi (e + 1)"
  obtains r where "rnd x = Fin r" and "\<bar>r - x\<bar> \<le> 2 powi (e - 24)"
proof -
  let ?u = "ulp x"
  let ?r = "of_int (round_even (x / ?u)) * ?u"
  have "expo x \<le> e"
    using assms(1,3) by (rule expo_le)
  then have u_le: "?u \<le> 2 powi (e - 23)"
    by (simp add: ulp_def power_int_increasing)
  have "?r - x = (of_int (round_even (x / ?u)) - x / ?u) * ?u"
    using ulp_pos [of x] by (simp add: left_diff_distrib)
  then have "\<bar>?r - x\<bar> = \<bar>of_int (round_even (x / ?u)) - x / ?u\<bar> * ?u"
    using ulp_pos [of x] by (simp add: abs_mult)
  also have "\<dots> \<le> 1 / 2 * ?u"
    using round_even_error [of "x / ?u"] ulp_pos [of x] by (intro mult_right_mono) simp_all
  also have "\<dots> \<le> 1 / 2 * 2 powi (e - 23)"
    using u_le by simp
  also have "\<dots> = 2 powi (e - 24)"
    by (simp add: power_int_diff)
  finally have err: "\<bar>?r - x\<bar> \<le> 2 powi (e - 24)" .
  have "2 powi (e - 24) \<le> (2::real) powi (e + 1)"
    by (simp add: power_int_increasing)
  then have "\<bar>?r\<bar> < 2 * 2 powi (e + 1)"
    using err assms(3) by linarith
  also have "\<dots> = 2 powi (e + 2)"
    by (simp add: power_int_add)
  also have "\<dots> \<le> 2 powi 128"
    using assms(2) by (intro power_int_increasing) simp_all
  finally have "rnd x = Fin ?r"
    by (simp add: rnd_def Let_def)
  then show thesis
    using err by (rule that)
qed

lemma rnd_relative_error:
  assumes "2 powi (- 126) \<le> \<bar>x\<bar>" and "\<bar>x\<bar> < 2 powi 127"
  obtains r where "rnd x = Fin r" and "\<bar>r - x\<bar> \<le> \<bar>x\<bar> / 2 ^ 24"
proof -
  have up: "\<bar>x\<bar> < 2 powi (expo x + 1)"
    using assms(2) by (intro expo_upper) (simp add: order_less_trans)
  have low: "2 powi (expo x) \<le> \<bar>x\<bar>"
    using assms(1) by (rule expo_lower)
  have "expo x \<le> 126"
    using assms(2) expo_le [of 126 x] by simp
  with expo_range(1) [of x] obtain r
    where r: "rnd x = Fin r" "\<bar>r - x\<bar> \<le> 2 powi (expo x - 24)"
    using up by (rule rnd_error [of "expo x" x])
  have "2 powi (expo x - 24) = 2 powi (expo x) / (2::real) ^ 24"
    by (simp add: power_int_diff)
  also have "\<dots> \<le> \<bar>x\<bar> / 2 ^ 24"
    using low by (simp add: divide_right_mono)
  finally show thesis
    using r that by simp
qed


lemma rnd_exact:
  assumes "\<bar>r\<bar> < 2 powi 128" and "r = of_int m * 2 powi (expo r - 23)"
  shows "rnd r = Fin r"
proof -
  have "r / ulp r = of_int m"
    using assms(2) by (simp add: ulp_def) (metis nonzero_mult_div_cancel_right power_int_eq_0_iff zero_neq_numeral)
  then have "of_int (round_even (r / ulp r)) * ulp r = r"
    using assms(2) by (simp add: ulp_def)
  then show ?thesis
    using assms(1) by (simp add: rnd_def Let_def)
qed

lemma rnd_idem:
  assumes "rnd x = Fin r"
  shows "rnd r = Fin r"
proof -
  let ?e = "expo x"
  let ?n = "round_even (x / ulp x)"
  have r: "r = of_int ?n * 2 powi (?e - 23)" and fin: "\<bar>r\<bar> < 2 powi 128"
    using assms by (auto simp add: rnd_def Let_def ulp_def split: if_splits)
  show ?thesis
  proof (cases "\<bar>r\<bar> < 2 powi (?e + 1)")
    case True
    then have le: "expo r \<le> ?e"
      using expo_range(1) [of x] by (intro expo_le)
    define d where "d = nat (?e - expo r)"
    define k where "k = expo r"
    have "(2::real) powi (?e - 23) = 2 powi (k - 23) * 2 ^ d"
      using le by (simp add: d_def k_def power_int_add [symmetric] flip: power_int_of_nat)
    then have "of_int ?n * (2::real) powi (?e - 23) = of_int (?n * 2 ^ d) * 2 powi (k - 23)"
      by simp
    then have "r = of_int (?n * 2 ^ d) * 2 powi (k - 23)"
      by (simp only: r)
    then have "r = of_int (?n * 2 ^ d) * 2 powi (expo r - 23)"
      by (simp only: k_def)
    with fin show ?thesis
      by (rule rnd_exact)
  next
    case False
    then have big: "2 powi (?e + 1) \<le> \<bar>r\<bar>" by simp
    have e_lt: "?e + 1 \<le> 127"
    proof (rule ccontr)
      assume "\<not> ?e + 1 \<le> 127"
      then have "?e = 127" using expo_range(2) [of x] by simp
      with big fin show False by simp
    qed
    have "(2::real) powi (?e + 1) \<le> 2 powi 127"
      using e_lt by (intro power_int_increasing) simp_all
    have xsmall: "\<bar>x\<bar> < 2 powi (?e + 1)"
    proof (rule ccontr)
      assume "\<not> \<bar>x\<bar> < 2 powi (?e + 1)"
      then have "2 powi (?e + 1) \<le> \<bar>x\<bar>" by simp
      with e_lt have "?e + 1 \<le> expo x" by (rule expo_ge)
      then show False by simp
    qed
    have u: "ulp x = 2 powi (?e - 23)" "0 < ulp x"
      by (simp_all add: ulp_def)
    have "\<bar>x / ulp x\<bar> < 2 powi (?e + 1) / 2 powi (?e - 23)"
      using xsmall u by (simp add: divide_strict_right_mono)
    also have "\<dots> = 2 ^ 24"
      by (simp add: power_int_diff [symmetric])
    finally have "\<bar>x / ulp x\<bar> < 2 ^ 24" .
    then have "\<bar>of_int ?n :: real\<bar> < 2 ^ 24 + 1"
      using round_even_error [of "x / ulp x"] by linarith
    then have n_le: "\<bar>?n\<bar> \<le> 2 ^ 24"
      by (simp add: abs_less_iff) linarith
    have "\<bar>r\<bar> = \<bar>of_int ?n\<bar> * 2 powi (?e - 23)"
      using r by (simp add: abs_mult)
    then have "2 powi (?e + 1) / 2 powi (?e - 23) \<le> \<bar>of_int ?n :: real\<bar>"
      using big by (simp add: pos_divide_le_eq)
    then have "(2::real) ^ 24 \<le> \<bar>of_int ?n\<bar>"
      by (simp add: power_int_diff [symmetric])
    then have n_ge: "2 ^ 24 \<le> \<bar>?n\<bar>"
      by (metis of_int_abs of_int_le_iff of_int_numeral of_int_power)
    from n_le n_ge have n: "\<bar>?n\<bar> = 2 ^ 24" by simp
    have absr: "\<bar>r\<bar> = 2 powi (?e + 1)"
    proof -
      have "\<bar>r\<bar> = of_int \<bar>?n\<bar> * 2 powi (?e - 23)"
        using r by (simp add: abs_mult)
      also have "\<dots> = 2 powi (?e + 1)"
        using power_int_add [of "2::real" 24 "?e - 23"] by (simp add: n add.commute)
      finally show ?thesis .
    qed
    have er: "expo r = ?e + 1"
      using expo_range(1) [of x] e_lt absr
      by (intro expo_eq) (simp_all add: power_int_strict_increasing)
    have "r = of_int (?n div 2) * 2 powi (expo r - 23)"
    proof -
      have "even ?n"
        using n by (metis even_abs_add_iff even_add even_numeral even_power zero_less_numeral)
      then have "of_int ?n = (of_int (?n div 2) * 2 :: real)"
        by (metis dvd_div_mult_self of_int_mult of_int_numeral)
      moreover have "(2::real) powi (?e - 23) = 2 powi (?e - 24) * 2"
        by (simp add: power_int_diff)
      ultimately show ?thesis
        using r by (simp add: er power_int_diff)
    qed
    with fin show ?thesis
      by (rule rnd_exact)
  qed
qed

text \<open>The result of an arithmetic operation is a \<^verbatim>\<open>float32\<close> value.\<close>

lemma rnd_zero [simp]: "rnd 0 = Fin 0"
  by (simp add: rnd_def round_even_def)

lemma cast_float32_rnd: "cast_float32 (rnd x) = rnd x"
  by (cases "rnd x") (simp_all add: rnd_idem)

lemma cast_float32_fsub: "cast_float32 (fsub a b) = fsub a b"
  by (cases a; cases b) (simp_all add: cast_float32_rnd)

lemma cast_float32_fmul: "cast_float32 (fmul a b) = fmul a b"
  by (cases a; cases b) (simp_all add: cast_float32_rnd)


lemma cast_float32_twice: "cast_float32 (cast_float32 v) = cast_float32 v"
  by (cases v) (simp_all add: cast_float32_rnd)

section \<open>Clipping\<close>

text \<open>
  C2, as the code has it. For a keypoint tensor \<open>K\<close> of rank 3 and a window with
  \<open>y_min \<le> y_max\<close> and \<open>x_min \<le> x_max\<close>, every coordinate of
  \<open>clip_to_window K W\<close> whose input coordinate is not NaN lies within the bounds of the
  window, inclusive: the \<open>y\<close> in \<open>[y_min, y_max]\<close> and the \<open>x\<close> in \<open>[x_min, x_max]\<close>.
\<close>

theorem clip_to_window_within_window:
  assumes "fle (win_y_min W) (win_y_max W)" and "fle (win_x_min W) (win_x_max W)"
    and "well_shaped K" and "i < dim0 K" and "k < dim1 K"
  shows "(\<not> is_nan (fst (cell K i k)) \<longrightarrow>
            fle (win_y_min W) (fst (cell (clip_to_window K W) i k)) \<and>
            fle (fst (cell (clip_to_window K W) i k)) (win_y_max W)) \<and>
         (\<not> is_nan (snd (cell K i k)) \<longrightarrow>
            fle (win_x_min W) (snd (cell (clip_to_window K W) i k)) \<and>
            fle (snd (cell (clip_to_window K W) i k)) (win_x_max W))"
  using assms
  by (simp add: clip_to_window_cells cell_tmap case_prod_unfold clamp_within)

text \<open>A keypoint above and to the left of the unit window is moved to its corner.\<close>

theorem clip_to_window_within_window_witness:
  "fle (Fin 0) (Fin 1) \<and>
   well_shaped (Tensor 1 2 [[(Fin 2, Fin (- 3)), (NaN, Fin (1 / 2))]]) \<and>
   cell (clip_to_window (Tensor 1 2 [[(Fin 2, Fin (- 3)), (NaN, Fin (1 / 2))]])
          \<lparr>win_y_min = Fin 0, win_x_min = Fin 0, win_y_max = Fin 1, win_x_max = Fin 1\<rparr>) 0 0
     = (Fin 1, Fin 0) \<and>
   fle (Fin 0) (fst (cell (clip_to_window
          (Tensor 1 2 [[(Fin 2, Fin (- 3)), (NaN, Fin (1 / 2))]])
          \<lparr>win_y_min = Fin 0, win_x_min = Fin 0, win_y_max = Fin 1, win_x_max = Fin 1\<rparr>) 0 0))"
  using clip_to_window_within_window
    [of "\<lparr>win_y_min = Fin 0, win_x_min = Fin 0, win_y_max = Fin 1, win_x_max = Fin 1\<rparr>"
        "Tensor 1 2 [[(Fin 2, Fin (- 3)), (NaN, Fin (1 / 2))]]" 0 0]
  by (simp add: well_shaped_def clip_to_window_cells tmap_def cell_def fmin_def fmax_def)

text \<open>
  Without the restriction the bound fails: the \<open>y\<close> of a pruned keypoint stays NaN, and
  NaN is not at least the lower bound of the unit window.
\<close>

theorem clip_to_window_nan_counterexample:
  "fle (Fin 0) (Fin 1) \<and>
   \<not> fle (Fin 0)
       (fst (cell (clip_to_window (Tensor 1 1 [[(NaN, Fin (1 / 2))]])
          \<lparr>win_y_min = Fin 0, win_x_min = Fin 0, win_y_max = Fin 1, win_x_max = Fin 1\<rparr>) 0 0))"
  by (simp add: clip_to_window_cells tmap_def cell_def fmin_def fmax_def)

text \<open>
  C10. For a keypoint tensor \<open>K\<close> of rank 3 and any window, a coordinate of \<open>K\<close> that is
  NaN is still NaN in \<open>clip_to_window K W\<close>: clipping does not move a pruned keypoint
  into the window.
\<close>

theorem clip_to_window_keeps_nan:
  assumes "well_shaped K" and "i < dim0 K" and "k < dim1 K"
  shows "(is_nan (fst (cell K i k)) \<longrightarrow> is_nan (fst (cell (clip_to_window K W) i k))) \<and>
         (is_nan (snd (cell K i k)) \<longrightarrow> is_nan (snd (cell (clip_to_window K W) i k)))"
  using assms
  by (simp add: clip_to_window_cells cell_tmap case_prod_unfold clamp_nan)

theorem clip_to_window_keeps_nan_witness:
  "well_shaped (Tensor 1 1 [[(NaN, Fin 7)]]) \<and>
   is_nan (fst (cell (Tensor 1 1 [[(NaN, Fin 7)]]) 0 0)) \<and>
   is_nan (fst (cell (clip_to_window (Tensor 1 1 [[(NaN, Fin 7)]])
      \<lparr>win_y_min = Fin 0, win_x_min = Fin 0, win_y_max = Fin 1, win_x_max = Fin 1\<rparr>) 0 0))"
  using clip_to_window_keeps_nan
    [of "Tensor 1 1 [[(NaN, Fin 7)]]" 0 0
        "\<lparr>win_y_min = Fin 0, win_x_min = Fin 0, win_y_max = Fin 1, win_x_max = Fin 1\<rparr>"]
  by (simp add: well_shaped_def cell_def)

section \<open>Pruning\<close>

text \<open>
  C3. For a keypoint tensor \<open>K\<close> of rank 3 and any window, \<open>prune_outside_window K W\<close> has
  the shape of \<open>K\<close>; a keypoint whose \<open>y\<close> lies in \<open>[y_min, y_max]\<close> and whose \<open>x\<close> lies
  in \<open>[x_min, x_max]\<close>, bounds included, is returned as it is, and every other keypoint is
  returned with both coordinates NaN.
\<close>

theorem prune_outside_window_cellwise:
  assumes "well_shaped K"
  shows "well_shaped (prune_outside_window K W) \<and>
         dim0 (prune_outside_window K W) = dim0 K \<and>
         dim1 (prune_outside_window K W) = dim1 K \<and>
         (\<forall>i<dim0 K. \<forall>k<dim1 K.
            cell (prune_outside_window K W) i k =
              (case cell K i k of (y, x) \<Rightarrow>
                 if fle (win_y_min W) y \<and> fle y (win_y_max W) \<and>
                    fle (win_x_min W) x \<and> fle x (win_x_max W)
                 then (y, x) else (NaN, NaN)))"
  using assms
  by (simp add: prune_outside_window_cells well_shaped_tmap dims_tmap cell_tmap
      case_prod_unfold fge_def)

theorem prune_outside_window_cellwise_witness:
  "well_shaped (Tensor 1 2 [[(Fin (1 / 2), Fin 1), (Fin (1 / 2), Fin 2)]]) \<and>
   prune_outside_window (Tensor 1 2 [[(Fin (1 / 2), Fin 1), (Fin (1 / 2), Fin 2)]])
      \<lparr>win_y_min = Fin 0, win_x_min = Fin 0, win_y_max = Fin 1, win_x_max = Fin 1\<rparr>
     = Tensor 1 2 [[(Fin (1 / 2), Fin 1), (NaN, NaN)]] \<and>
   cell (prune_outside_window (Tensor 1 2 [[(Fin (1 / 2), Fin 1), (Fin (1 / 2), Fin 2)]])
      \<lparr>win_y_min = Fin 0, win_x_min = Fin 0, win_y_max = Fin 1, win_x_max = Fin 1\<rparr>) 0 1
     = (NaN, NaN)"
  using prune_outside_window_cellwise
    [of "Tensor 1 2 [[(Fin (1 / 2), Fin 1), (Fin (1 / 2), Fin 2)]]"
        "\<lparr>win_y_min = Fin 0, win_x_min = Fin 0, win_y_max = Fin 1, win_x_max = Fin 1\<rparr>"]
  by (simp add: well_shaped_def prune_outside_window_cells tmap_def cell_def fge_def)

text \<open>
  C9. For a keypoint tensor \<open>K\<close> of rank 3 and a window whose bounds are not NaN, pruning
  twice is pruning once: a keypoint already set to \<open>(NaN, NaN)\<close> fails the bounds test
  and is set to \<open>(NaN, NaN)\<close> again, and a keypoint that passed the test passes it again.
\<close>

theorem prune_outside_window_idempotent:
  assumes "\<not> is_nan (win_y_min W)" and "\<not> is_nan (win_x_min W)"
    and "\<not> is_nan (win_y_max W)" and "\<not> is_nan (win_x_max W)"
  shows "prune_outside_window (prune_outside_window K W) W = prune_outside_window K W"
proof -
  let ?f = "\<lambda>(y, x).
        if (fge y (win_y_min W) \<and> fle y (win_y_max W)) \<and>
           (fge x (win_x_min W) \<and> fle x (win_x_max W))
        then (y, x) else (NaN, NaN)"
  have "?f (?f c) = ?f c" for c
    by (cases c) (simp add: fge_def)
  then have "tmap ?f (tmap ?f K) = tmap ?f K"
    by (simp only: tmap_tmap)
  then show ?thesis
    by (simp only: prune_outside_window_cells)
qed

theorem prune_outside_window_idempotent_witness:
  "\<not> is_nan (Fin 0) \<and> \<not> is_nan (Fin 1) \<and>
   prune_outside_window
     (prune_outside_window (Tensor 1 2 [[(Fin (1 / 2), Fin 1), (Fin (1 / 2), Fin 2)]])
        \<lparr>win_y_min = Fin 0, win_x_min = Fin 0, win_y_max = Fin 1, win_x_max = Fin 1\<rparr>)
     \<lparr>win_y_min = Fin 0, win_x_min = Fin 0, win_y_max = Fin 1, win_x_max = Fin 1\<rparr>
   = Tensor 1 2 [[(Fin (1 / 2), Fin 1), (NaN, NaN)]]"
  using prune_outside_window_idempotent
    [of "\<lparr>win_y_min = Fin 0, win_x_min = Fin 0, win_y_max = Fin 1, win_x_max = Fin 1\<rparr>"
        "Tensor 1 2 [[(Fin (1 / 2), Fin 1), (Fin (1 / 2), Fin 2)]]"]
  by (simp add: prune_outside_window_cells tmap_def fge_def)

section \<open>Visibilities of keypoints\<close>

text \<open>
  C7. For a keypoint tensor \<open>K\<close> of rank 3 and an initial mask \<open>V\<close> of shape
  \<open>[N, K]\<close> (all-true when no mask is given), \<open>set_keypoint_visibilities\<close> returns a mask
  of that shape whose entry \<open>[i, k]\<close> is false when a coordinate of keypoint \<open>[i, k]\<close>
  is NaN and is the entry of \<open>V\<close> otherwise; no entry goes from false to true.
\<close>

theorem set_keypoint_visibilities_mask:
  assumes "well_shaped K"
    and "initial = None \<and> V = tmap (\<lambda>_. True) K \<or>
         initial = Some V \<and> well_shaped V \<and> dim0 V = dim0 K \<and> dim1 V = dim1 K"
  shows "case set_keypoint_visibilities K initial of
           Inl e \<Rightarrow> False
         | Inr R \<Rightarrow>
             well_shaped R \<and> dim0 R = dim0 K \<and> dim1 R = dim1 K \<and>
             (\<forall>i<dim0 K. \<forall>k<dim1 K.
                cell R i k =
                  (if is_nan (fst (cell K i k)) \<or> is_nan (snd (cell K i k)) then False
                   else cell V i k) \<and>
                (cell R i k \<longrightarrow> cell V i k))"
proof -
  have V: "well_shaped V" "dim0 V = dim0 K" "dim1 V = dim1 K"
    using assms by (auto simp add: well_shaped_tmap dims_tmap)
  have init: "(case initial of Some v \<Rightarrow> v | None \<Rightarrow> tmap (\<lambda>_. True) K) = V"
    using assms(2) by auto
  let ?nan = "tmap (\<lambda>(y, x). is_nan y \<or> is_nan x) K"
  let ?R = "twhere ?nan (tmap (\<lambda>_. False) V) V"
  have res: "set_keypoint_visibilities K initial = Inr ?R"
    using V by (simp add: set_keypoint_visibilities_def init dims_tmap)
  have shape: "well_shaped ?R" "dim0 ?R = dim0 K" "dim1 ?R = dim1 K"
    using assms(1) V by (simp_all add: well_shaped_twhere well_shaped_tmap dims_tmap dims_twhere)
  have cellwise: "cell ?R i k =
      (if is_nan (fst (cell K i k)) \<or> is_nan (snd (cell K i k)) then False else cell V i k)"
    if "i < dim0 K" and "k < dim1 K" for i k
    using assms(1) V that
    by (simp add: cell_twhere well_shaped_tmap dims_tmap cell_tmap case_prod_unfold)
  show ?thesis
    using shape cellwise by (simp add: res)
qed

theorem set_keypoint_visibilities_mask_witness:
  "well_shaped (Tensor 1 2 [[(NaN, NaN), (Fin (1 / 10), Fin (1 / 5))]]) \<and>
   well_shaped (Tensor 1 2 [[True, True]]) \<and>
   set_keypoint_visibilities (Tensor 1 2 [[(NaN, NaN), (Fin (1 / 10), Fin (1 / 5))]])
       (Some (Tensor 1 2 [[True, True]])) =
     Inr (Tensor 1 2 [[False, True]])"
  using set_keypoint_visibilities_mask
    [of "Tensor 1 2 [[(NaN, NaN), (Fin (1 / 10), Fin (1 / 5))]]"
        "Some (Tensor 1 2 [[True, True]])" "Tensor 1 2 [[True, True]]"]
  by (simp add: well_shaped_def set_keypoint_visibilities_def twhere_def tmap2_def tmap_def)

section \<open>Change of coordinate frame\<close>





section \<open>Normalized and absolute coordinates\<close>

text \<open>A \<^verbatim>\<open>float32\<close> number that is at most 1.01 is at most the constant that 1.01 becomes.\<close>

lemma rnd_101: "rnd (101 / 100) = Fin (4236247 / 4194304)"
  by code_simp

lemma float32_below_101:
  assumes "rnd v = Fin v" and "v \<le> 101 / 100"
  shows "v \<le> 4236247 / 4194304"
proof (cases "v < 1")
  case True
  then show ?thesis by simp
next
  case False
  then have "expo v = 0"
    using assms(2) by (intro expo_eq) simp_all
  then have u: "ulp v = 1 / 2 ^ 23"
    by (simp add: ulp_def power_int_minus_divide)
  define n where "n = round_even (v / ulp v)"
  have v: "v = of_int n / 2 ^ 23"
    using assms(1) by (simp add: rnd_def Let_def n_def u split: if_splits)
  then have "of_int n \<le> (101 / 100 * 2 ^ 23 :: real)"
    using assms(2) by (simp add: field_simps)
  then have "of_int n \<le> (8472495 :: real)"
    by simp
  then have "n < 8472495 \<or> n = 8472495"
    by linarith
  moreover have "n \<noteq> 8472495"
    using v assms(2) by auto
  ultimately have "n \<le> 8472494" by simp
  then have "(of_int n :: real) \<le> 8472494" by simp
  then show ?thesis
    by (simp add: v field_simps)
qed

lemma is_float32_fmax: "is_float32 a \<Longrightarrow> is_float32 b \<Longrightarrow> is_float32 (fmax a b)"
  by (simp add: fmax_def is_float32_def)

lemma is_float32_foldl_fmax:
  "is_float32 a \<Longrightarrow> list_all is_float32 vs \<Longrightarrow> is_float32 (foldl fmax a vs)"
  by (induction vs arbitrary: a) (simp_all add: is_float32_fmax)

lemma is_float32_reduce_max:
  assumes "float32_tensor K"
  shows "is_float32 (reduce_max K)"
proof -
  have "list_all is_float32 (concat (map (\<lambda>(y, x). [y, x]) (concat (cells K))))"
    using assms by (fastforce simp add: float32_tensor_def list_all_iff)
  then have "is_float32 (foldl fmax NInf (concat (map (\<lambda>(y, x). [y, x]) (concat (cells K)))))"
    by (intro is_float32_foldl_fmax) (simp_all add: is_float32_def)
  then show ?thesis
    by (simp add: reduce_max_def)
qed

lemma not_fgt_101:
  assumes "is_float32 m" and "fle m (Fin (101 / 100))"
  shows "\<not> fgt m (rnd (101 / 100))"
proof (cases m)
  case (Fin v)
  with assms have "rnd v = Fin v" "v \<le> 101 / 100"
    by (simp_all add: is_float32_def)
  then have "v \<le> 4236247 / 4194304"
    by (rule float32_below_101)
  with Fin show ?thesis
    by (simp add: rnd_101)
qed (use assms in \<open>simp_all add: rnd_101\<close>)

text \<open>
  C1, as the code has it. For a keypoint tensor of rank 3 of \<^verbatim>\<open>float32\<close> values whose
  maximum coordinate value is at most 1.01, \<open>to_normalized_coordinates\<close> with
  \<open>check_range = True\<close> fails with a range error that carries the maximum value whenever
  the assertion runs: always under eager execution and inside a \<^verbatim>\<open>tf.function\<close>, and
  in a v1 graph run by a session when \<open>ASSERT_ACTIVE\<close> is set. In a v1 graph with
  \<open>ASSERT_ACTIVE\<close> unset the assertion is built but nothing depends on it, and the
  scaled keypoints are returned.
\<close>

theorem to_normalized_coordinates_range_check:
  assumes "float32_tensor K" and "fle (reduce_max K) (Fin (101 / 100))"
  shows "to_normalized_coordinates ex ASSERT_ACTIVE K height width True =
           (if ex = Session \<and> \<not> ASSERT_ACTIVE
            then Inr (scale K (fdiv (Fin 1) (cast_float32 height))
                              (fdiv (Fin 1) (cast_float32 width)))
            else Inl (InvalidArgument ''max value is lower than 1.01: '' (reduce_max K)))"
  using not_fgt_101 [OF is_float32_reduce_max [OF assms(1)] assms(2)]
  by (cases ex)
    (simp_all add: to_normalized_coordinates_def tf_Assert_def assert_control_dependencies_def
      Let_def)

theorem to_normalized_coordinates_range_check_witness:
  "float32_tensor (Tensor 1 1 [[(Fin (1 / 2), Fin 1)]]) \<and>
   fle (reduce_max (Tensor 1 1 [[(Fin (1 / 2), Fin 1)]])) (Fin (101 / 100)) \<and>
   to_normalized_coordinates Eager False (Tensor 1 1 [[(Fin (1 / 2), Fin 1)]])
       (Fin 2) (Fin 4) True =
     Inl (InvalidArgument ''max value is lower than 1.01: '' (Fin 1)) \<and>
   to_normalized_coordinates Session True (Tensor 1 1 [[(Fin (1 / 2), Fin 1)]])
       (Fin 2) (Fin 4) True =
     Inl (InvalidArgument ''max value is lower than 1.01: '' (Fin 1))"
proof -
  let ?K = "Tensor 1 1 [[(Fin (1 / 2), Fin 1)]]"
  have f: "float32_tensor ?K"
    unfolding float32_tensor_def is_float32_def by code_simp
  have m: "reduce_max ?K = Fin 1"
    by (simp add: reduce_max_def fmax_def)
  then have le: "fle (reduce_max ?K) (Fin (101 / 100))"
    by simp
  show ?thesis
    using f le to_normalized_coordinates_range_check [OF f le, of Eager False "Fin 2" "Fin 4"]
      to_normalized_coordinates_range_check [OF f le, of Session True "Fin 2" "Fin 4"]
    by (simp add: reduce_max_def fmax_def)
qed

text \<open>
  In a v1 graph with \<open>ASSERT_ACTIVE\<close> unset, which is the default, a tensor with maximum
  1 is scaled and returned, although the range check was asked for.
\<close>

theorem to_normalized_coordinates_session_counterexample:
  "fle (reduce_max (Tensor 1 1 [[(Fin (1 / 2), Fin 1)]])) (Fin (101 / 100)) \<and>
   to_normalized_coordinates Session False (Tensor 1 1 [[(Fin (1 / 2), Fin 1)]])
       (Fin 2) (Fin 4) True =
     Inr (Tensor 1 1 [[(Fin (1 / 4), Fin (1 / 4))]])"
  by code_simp

section \<open>Rotation\<close>

lemma fsub_error:
  assumes "- 126 \<le> e" and "e \<le> 126" and "\<bar>a - b\<bar> < 2 powi (e + 1)"
  obtains r where "fsub (Fin a) (Fin b) = Fin r" and "\<bar>r - (a - b)\<bar> \<le> 2 powi (e - 24)"
  using rnd_error [OF assms] by auto

lemma complement_twice_close:
  assumes "0 \<le> y" and "y \<le> 1"
  obtains u where "fsub (Fin 1) (fsub (Fin 1) (Fin y)) = Fin u" and "\<bar>u - y\<bar> \<le> 1 / 2 ^ 23"
proof -
  have "\<bar>1 - y\<bar> < 2 powi (0 + 1)"
    using assms by simp
  then obtain t where t: "fsub (Fin 1) (Fin y) = Fin t" "\<bar>t - (1 - y)\<bar> \<le> 2 powi (0 - 24)"
    by (rule fsub_error [of 0 1 y, rotated 2]) simp_all
  then have tb: "\<bar>t - (1 - y)\<bar> \<le> 1 / 2 ^ 24"
    by (simp add: power_int_minus_divide)
  have small: "(1::real) / 2 ^ 24 < 1"
    by simp
  have "\<bar>1 - t\<bar> < 2"
    using tb assms small by linarith
  then have "\<bar>1 - t\<bar> < 2 powi (0 + 1)"
    by simp
  then obtain u where u: "fsub (Fin 1) (Fin t) = Fin u" "\<bar>u - (1 - t)\<bar> \<le> 2 powi (0 - 24)"
    by (rule fsub_error [of 0 1 t, rotated 2]) simp_all
  then have ub: "\<bar>u - (1 - t)\<bar> \<le> 1 / 2 ^ 24"
    by (simp add: power_int_minus_divide)
  have "(1::real) / 2 ^ 24 + 1 / 2 ^ 24 = 1 / 2 ^ 23"
    by simp
  then have "\<bar>u - y\<bar> \<le> 1 / 2 ^ 23"
    using tb ub by linarith
  with u(1) t(1) show thesis
    by (intro that [of u]) simp_all
qed

lemma complement_twice_within:
  assumes "fle (Fin 0) v" and "fle v (Fin 1)"
  shows "within_tolerance (1 / 2 ^ 23) (fsub (Fin 1) (fsub (Fin 1) v)) v"
proof (cases v)
  case (Fin y)
  with assms have "0 \<le> y" "y \<le> 1" by simp_all
  then obtain u where "fsub (Fin 1) (fsub (Fin 1) (Fin y)) = Fin u" "\<bar>u - y\<bar> \<le> 1 / 2 ^ 23"
    by (rule complement_twice_close)
  with Fin show ?thesis by simp
qed (use assms in simp_all)

lemma rot90_four:
  assumes "well_shaped K"
  shows "and_then (and_then (and_then (rot90 K None) (\<lambda>K'. rot90 K' None))
                     (\<lambda>K'. rot90 K' None)) (\<lambda>K'. rot90 K' None) =
           Inr (tmap (\<lambda>(y, x). (fsub (Fin 1) (fsub (Fin 1) y),
                                 fsub (Fin 1) (fsub (Fin 1) x))) K)"
  using assms
  by (simp add: and_then_def rot90_cells well_shaped_tmap tmap_tmap case_prod_unfold)

text \<open>
  C5. For a keypoint tensor \<open>K\<close> of rank 3 with all coordinates in \<open>[0, 1]\<close>, one
  \<open>rot90\<close> without permutation sends each keypoint \<open>(y, x)\<close> to \<open>(1 - x, y)\<close>, and four
  of them return a tensor of the shape of \<open>K\<close> whose coordinates are those of \<open>K\<close> within
  the tolerance \<open>2\<^sup>-\<^sup>2\<^sup>3\<close>, the rounding of two subtractions from 1.
\<close>

theorem rot90_four_times:
  assumes "well_shaped K"
    and "list_all (list_all (\<lambda>(y, x). fle (Fin 0) y \<and> fle y (Fin 1) \<and>
                                        fle (Fin 0) x \<and> fle x (Fin 1))) (cells K)"
  shows "rot90 K None = Inr (tmap (\<lambda>(y, x). (fsub (Fin 1) x, y)) K) \<and>
         (case and_then (and_then (and_then (rot90 K None) (\<lambda>K'. rot90 K' None))
                  (\<lambda>K'. rot90 K' None)) (\<lambda>K'. rot90 K' None) of
            Inl e \<Rightarrow> False
          | Inr R \<Rightarrow>
              well_shaped R \<and> dim0 R = dim0 K \<and> dim1 R = dim1 K \<and>
              (\<forall>i<dim0 K. \<forall>k<dim1 K.
                 within_tolerance (1 / 2 ^ 23) (fst (cell R i k)) (fst (cell K i k)) \<and>
                 within_tolerance (1 / 2 ^ 23) (snd (cell R i k)) (snd (cell K i k))))"
proof -
  have unit: "fle (Fin 0) (fst (cell K i k)) \<and> fle (fst (cell K i k)) (Fin 1) \<and>
              fle (Fin 0) (snd (cell K i k)) \<and> fle (snd (cell K i k)) (Fin 1)"
    if "i < dim0 K" and "k < dim1 K" for i k
  proof -
    from cell_in_range [OF assms(1) that]
    have "cells K ! i \<in> set (cells K)" "cell K i k \<in> set (cells K ! i)"
      by (simp_all add: cell_def)
    with assms(2) show ?thesis
      by (auto simp add: list_all_iff case_prod_unfold)
  qed
  have close:
    "within_tolerance (1 / 2 ^ 23) (fsub (Fin 1) (fsub (Fin 1) (fst (cell K i k))))
       (fst (cell K i k)) \<and>
     within_tolerance (1 / 2 ^ 23) (fsub (Fin 1) (fsub (Fin 1) (snd (cell K i k))))
       (snd (cell K i k))"
    if "i < dim0 K" and "k < dim1 K" for i k
    using unit [OF that] by (blast intro: complement_twice_within)
  show ?thesis
  proof (intro conjI)
    show "rot90 K None = Inr (tmap (\<lambda>(y, x). (fsub (Fin 1) x, y)) K)"
      using assms(1) by (rule rot90_cells)
    show "case and_then (and_then (and_then (rot90 K None) (\<lambda>K'. rot90 K' None))
                  (\<lambda>K'. rot90 K' None)) (\<lambda>K'. rot90 K' None) of
            Inl e \<Rightarrow> False
          | Inr R \<Rightarrow>
              well_shaped R \<and> dim0 R = dim0 K \<and> dim1 R = dim1 K \<and>
              (\<forall>i<dim0 K. \<forall>k<dim1 K.
                 within_tolerance (1 / 2 ^ 23) (fst (cell R i k)) (fst (cell K i k)) \<and>
                 within_tolerance (1 / 2 ^ 23) (snd (cell R i k)) (snd (cell K i k)))"
      unfolding rot90_four [OF assms(1)]
      using assms(1) close
      by (simp add: well_shaped_tmap dims_tmap cell_tmap case_prod_unfold)
  qed
qed

text \<open>
  The coordinates \<open>1/4\<close> and \<open>3/4\<close> come back as they were; \<open>2\<^sup>-\<^sup>3\<^sup>0\<close> comes back as 0,
  which is within the tolerance.
\<close>

theorem rot90_four_times_witness:
  "well_shaped (Tensor 1 2 [[(Fin (1 / 4), Fin (3 / 4)), (Fin 0, Fin (1 / 2 ^ 30))]]) \<and>
   rot90 (Tensor 1 2 [[(Fin (1 / 4), Fin (3 / 4)), (Fin 0, Fin (1 / 2 ^ 30))]]) None =
     Inr (Tensor 1 2 [[(Fin (1 / 4), Fin (1 / 4)), (Fin 1, Fin 0)]]) \<and>
   and_then (and_then (and_then
       (rot90 (Tensor 1 2 [[(Fin (1 / 4), Fin (3 / 4)), (Fin 0, Fin (1 / 2 ^ 30))]]) None)
       (\<lambda>K'. rot90 K' None)) (\<lambda>K'. rot90 K' None)) (\<lambda>K'. rot90 K' None) =
     Inr (Tensor 1 2 [[(Fin (1 / 4), Fin (3 / 4)), (Fin 0, Fin 0)]]) \<and>
   within_tolerance (1 / 2 ^ 23) (Fin 0) (Fin (1 / 2 ^ 30))"
proof -
  let ?K = "Tensor 1 2 [[(Fin (1 / 4), Fin (3 / 4)), (Fin 0, Fin (1 / 2 ^ 30))]]"
  have shaped: "well_shaped ?K"
    by (simp add: well_shaped_def)
  have unit: "list_all (list_all (\<lambda>(y, x). fle (Fin 0) y \<and> fle y (Fin 1) \<and>
                                 fle (Fin 0) x \<and> fle x (Fin 1))) (cells ?K)"
    by simp
  have four: "and_then (and_then (and_then (rot90 ?K None) (\<lambda>K'. rot90 K' None))
      (\<lambda>K'. rot90 K' None)) (\<lambda>K'. rot90 K' None) =
      Inr (Tensor 1 2 [[(Fin (1 / 4), Fin (3 / 4)), (Fin 0, Fin 0)]])"
    by code_simp
  note both = rot90_four_times [OF shaped unit]
  from both have "rot90 ?K None = Inr (tmap (\<lambda>(y, x). (fsub (Fin 1) x, y)) ?K)"
    by (rule conjunct1)
  moreover have "tmap (\<lambda>(y, x). (fsub (Fin 1) x, y)) ?K =
      Tensor 1 2 [[(Fin (1 / 4), Fin (1 / 4)), (Fin 1, Fin 0)]]"
    by code_simp
  ultimately have once: "rot90 ?K None =
      Inr (Tensor 1 2 [[(Fin (1 / 4), Fin (1 / 4)), (Fin 1, Fin 0)]])"
    by simp
  from both have "\<forall>i<2. \<forall>k<2. i < 1 \<longrightarrow>
      within_tolerance (1 / 2 ^ 23)
        (snd (cell (Tensor 1 2 [[(Fin (1 / 4), Fin (3 / 4)), (Fin 0, Fin 0)]]) i k))
        (snd (cell ?K i k))"
    unfolding four by simp
  then have "within_tolerance (1 / 2 ^ 23)
        (snd (cell (Tensor 1 2 [[(Fin (1 / 4), Fin (3 / 4)), (Fin 0, Fin 0)]]) 0 1))
        (snd (cell ?K 0 1))"
    by (metis one_less_numeral_iff semiring_norm(76) zero_less_numeral zero_less_one)
  then have "within_tolerance (1 / 2 ^ 23) (Fin 0) (Fin (1 / 2 ^ 30))"
    by (simp add: cell_def)
  with shaped once four show ?thesis
    by (intro conjI)
qed

section \<open>Horizontal flip\<close>







end
